theory Spec2Isabelle
  imports Main
begin

section \<open>Theme configuration\<close>

text \<open>The enum \<open>AppThemes\<close> of \<open>enums/app.enum.ts\<close> and the string each member stands for.\<close>

datatype AppThemes = LIGHT | DARK | SYSTEM

fun AppThemes_str :: "AppThemes \<Rightarrow> string" where
  "AppThemes_str LIGHT = ''light''"
| "AppThemes_str DARK = ''dark''"
| "AppThemes_str SYSTEM = ''system''"

text \<open>The local \<open>mode\<close> of \<open>getColorsByTheme\<close> has the literal type \<open>'dark' | 'light'\<close>;
  it is also the key type of \<open>CHART_COLORS\<close>.\<close>

datatype Mode = Light | Dark

text \<open>One entry of \<open>CHART_COLORS\<close>. The field \<open>text\<close> of the source is \<open>text'\<close> here.\<close>

record ChartColors =
  text' :: string
  axis :: string
  line :: string
  tooltipBackground :: string
  hyperEvmLp :: string
  hyperEvmBalances :: string
  hyperCorePerp :: string
  hyperCoreSpot :: string
  heatmapGradient :: "string list"

fun CHART_COLORS :: "Mode \<Rightarrow> ChartColors" where
  "CHART_COLORS Light = \<lparr>
      text' = ''#434651'',
      axis = ''rgba(46, 49, 60, 0.1)'',
      line = ''rgba(46, 49, 60, 0.2)'',
      tooltipBackground = ''rgba(255, 255, 255, 0.98)'',
      hyperEvmLp = ''#3333ff'',
      hyperEvmBalances = ''#47b8b8'',
      hyperCorePerp = ''#ff3366'',
      hyperCoreSpot = ''#ff9933'',
      heatmapGradient = [''#dcfce7'', ''#fef3c7'', ''#fed7aa'', ''#fecaca'', ''#86efac'',
                         ''#fde047'', ''#fb923c'', ''#f87171'', ''#dc2626''] \<rparr>"
| "CHART_COLORS Dark = \<lparr>
      text' = ''#e6e8ef'',
      axis = ''rgba(209, 212, 220, 0.4)'',
      line = ''rgba(209, 212, 220, 0.2)'',
      tooltipBackground = ''rgba(20, 30, 45, 0.99)'',
      hyperEvmLp = ''#6666ff'',
      hyperEvmBalances = ''#47d4e6'',
      hyperCorePerp = ''#ff6680'',
      hyperCoreSpot = ''#ffaa4d'',
      heatmapGradient = [''#14532d'', ''#713f12'', ''#9a3412'', ''#991b1b'', ''#16a34a'',
                         ''#ca8a04'', ''#ea580c'', ''#dc2626'', ''#b91c1c''] \<rparr>"

text \<open>The type \<open>ThemeColors\<close>. The field \<open>default\<close> of the source is \<open>default'\<close> here;
  \<open>charts\<close> holds the whole \<open>CHART_COLORS\<close> entry, as the source assigns it.\<close>

record ThemeColors =
  background :: string
  backgroundOpposite :: string
  primary :: string
  default' :: string
  tc_hyperEvmLp :: string
  tc_hyperEvmBalances :: string
  tc_hyperCorePerp :: string
  tc_hyperCoreSpot :: string
  charts :: ChartColors

definition getColorsByTheme :: "bool \<Rightarrow> ThemeColors" where
  "getColorsByTheme isDark =
     (let mode = (if isDark then Dark else Light);
          chartColors = CHART_COLORS mode
      in \<lparr> background = (if mode = Dark then ''#0f1a1f'' else ''#f6fefd''),
           backgroundOpposite = (if mode = Dark then ''#f6fefd'' else ''#0f1a1f''),
           primary = ''#22ab94'',
           default' = (if mode = Dark then ''#d1d4dc'' else ''#2e313c''),
           tc_hyperEvmLp = hyperEvmLp chartColors,
           tc_hyperEvmBalances = hyperEvmBalances chartColors,
           tc_hyperCorePerp = hyperCorePerp chartColors,
           tc_hyperCoreSpot = hyperCoreSpot chartColors,
           charts = chartColors \<rparr>)"

definition lightColors :: ThemeColors where
  "lightColors = getColorsByTheme False"

definition darkColors :: ThemeColors where
  "darkColors = getColorsByTheme True"

text \<open>\<open>COLORS\<close> is the object \<open>{ light: lightColors, dark: darkColors }\<close>.\<close>

fun COLORS :: "Mode \<Rightarrow> ThemeColors" where
  "COLORS Light = lightColors"
| "COLORS Dark = darkColors"

text \<open>\<open>getThemeColors(mode?: string)\<close>: \<open>None\<close> is the argument left out (\<open>undefined\<close>);
  \<open>===\<close> on a string and \<open>undefined\<close> is false.\<close>

definition getThemeColors :: "string option \<Rightarrow> ThemeColors" where
  "getThemeColors mode =
     (if mode = Some (AppThemes_str DARK) then COLORS Dark else COLORS Light)"

section \<open>Numbers, arrays and strings of the source language\<close>

text \<open>A JavaScript value of type \<open>number\<close> as the chart holds it: spreads are whole
  numbers of basis points, so a number is an integer here; \<open>Undefined\<close> is what reading
  an array beyond its end gives.\<close>

datatype jsnum = Undefined | Num int

text \<open>\<open>xs[i]\<close> for an array and a loop index: \<open>None\<close> is \<open>undefined\<close>.\<close>

definition at :: "'a list \<Rightarrow> nat \<Rightarrow> 'a option" where
  "at xs i = (if i < length xs then Some (xs ! i) else None)"

text \<open>\<open>row[i]\<close> for a row of numbers.\<close>

definition num_at :: "int list \<Rightarrow> nat \<Rightarrow> jsnum" where
  "num_at row i = (case at row i of None \<Rightarrow> Undefined | Some v \<Rightarrow> Num v)"


definition digit :: "nat \<Rightarrow> char" where
  "digit d = char_of (48 + d)"

text \<open>Decimal digits of a natural number, most significant first. These are what a
  template string shows for a number below \<open>2^53\<close>, as every time value is.\<close>

function natToString :: "nat \<Rightarrow> string" where
  "natToString n = (if n < 10 then [digit n] else natToString (n div 10) @ [digit (n mod 10)])"
  by pat_completeness auto
termination
  by (relation "measure (\<lambda>n. n)") auto

declare natToString.simps [simp del]













definition lowerChar :: "char \<Rightarrow> char" where
  "lowerChar c = (let n = (of_char c :: nat) in if 65 \<le> n \<and> n \<le> 90 then char_of (n + 32) else c)"

text \<open>\<open>toLowerCase\<close> on the ASCII letters, which is all a token name has.\<close>

definition toLowerCase :: "string \<Rightarrow> string" where
  "toLowerCase s = map lowerChar s"

section \<open>Heatmap data\<close>

datatype error = TypeError

record HeatmapDataConfig =
  showNegativeFunding :: "bool option"

text \<open>Each element of \<open>data\<close> is the array \<open>[i, j, v]\<close>.\<close>

record HeatmapDataResult =
  data :: "jsnum list list"
  lpSteps :: nat
  fundingSteps :: nat
  xAxisLabels :: "string list"
  yAxisLabels :: "string list"

text \<open>The fetched document. The builder reads \<open>sources\<close>, \<open>pools\<close> and \<open>valuesBps\<close>
  through \<open>?.\<close>, so a document may lack them: \<open>None\<close> is the field left out.\<close>

record HeatmapJsonDataset =
  token :: string
  sources :: "string list option"
  pools :: "string list option"
  valuesBps :: "int list list option"
  updatedAt :: string

text \<open>The inner loop \<open>for (let j = 0; j < pools.length; j++) data.push([i, j, valuesBps[j][i]])\<close>,
  from its current \<open>j\<close>, with \<open>m\<close> the number of pools and \<open>vals\<close> the matrix \<open>valuesBps\<close>.
  Where the matrix has no row \<open>j\<close>, \<open>valuesBps[j]\<close> is \<open>undefined\<close> and reading its element \<open>i\<close>
  throws.\<close>

function innerLoop :: "int list list \<Rightarrow> nat \<Rightarrow> nat \<Rightarrow> nat \<Rightarrow> jsnum list list
    \<Rightarrow> error + jsnum list list" where
  "innerLoop vals m i j dat =
     (if j < m then
        (case at vals j of
           None \<Rightarrow> Inl TypeError
         | Some row \<Rightarrow> innerLoop vals m i (j + 1) (dat @ [[Num (int i), Num (int j), num_at row i]]))
      else Inr dat)"
  by pat_completeness auto
termination
  by (relation "measure (\<lambda>(vals, m, i, j, dat). m - j)") auto

declare innerLoop.simps [simp del]

text \<open>The outer loop \<open>for (let i = 0; i < sources.length; i++)\<close>, from its current \<open>i\<close>, with
  \<open>n\<close> the number of sources.\<close>

function outerLoop :: "int list list \<Rightarrow> nat \<Rightarrow> nat \<Rightarrow> nat \<Rightarrow> jsnum list list
    \<Rightarrow> error + jsnum list list" where
  "outerLoop vals n m i dat =
     (if i < n then
        (case innerLoop vals m i 0 dat of
           Inl e \<Rightarrow> Inl e
         | Inr dat' \<Rightarrow> outerLoop vals n m (i + 1) dat')
      else Inr dat)"
  by pat_completeness auto
termination
  by (relation "measure (\<lambda>(vals, n, m, i, dat). n - i)") auto

declare outerLoop.simps [simp del]

text \<open>\<open>generateHeatmapData\<close>: the built-in data. The option \<open>showNegativeFunding\<close> is read
  with its default and not used. The locals \<open>sources\<close>, \<open>pools\<close> and \<open>valuesBps\<close> of the
  source are \<open>srcs\<close>, \<open>pls\<close> and \<open>vals\<close>.\<close>

definition generateHeatmapData :: "HeatmapDataConfig \<Rightarrow> error + HeatmapDataResult" where
  "generateHeatmapData config =
     (let showNeg = (case showNegativeFunding config of None \<Rightarrow> False | Some b \<Rightarrow> b);
          srcs = [''HYPERCORE'', ''PYTH'', ''REDSTONE''];
          pls = [''POOL A HyperSwap 0.05'', ''POOL B HyperSwap 0.3'', ''POOL C Project X''];
          vals = [[12, 25, - 8], [5, 18, 3], [- 4, 10, 37]]
      in case outerLoop vals (length srcs) (length pls) 0 [] of
           Inl e \<Rightarrow> Inl e
         | Inr dat \<Rightarrow> Inr \<lparr> data = dat, lpSteps = length srcs, fundingSteps = length pls,
                             xAxisLabels = srcs, yAxisLabels = pls \<rparr>)"

text \<open>\<open>x?.length\<close> as a condition: false for a missing array and for an empty one.\<close>

definition hasLength :: "'a list option \<Rightarrow> bool" where
  "hasLength x = (case x of None \<Rightarrow> False | Some xs \<Rightarrow> length xs \<noteq> 0)"

text \<open>The memoised \<open>heatmapData\<close> of the component, a function of the held dataset
  (\<open>None\<close> is \<open>null\<close>) and of the property \<open>showNegativeFunding\<close>.\<close>

definition heatmapData :: "HeatmapJsonDataset option \<Rightarrow> bool \<Rightarrow> error + HeatmapDataResult" where
  "heatmapData dataset showNeg =
     (case dataset of
        None \<Rightarrow> generateHeatmapData \<lparr> showNegativeFunding = Some showNeg \<rparr>
      | Some d \<Rightarrow>
          (if hasLength (sources d) \<and> hasLength (pools d) \<and> hasLength (valuesBps d) then
             (case (sources d, pools d, valuesBps d) of
                (Some srcs, Some pls, Some vals) \<Rightarrow>
                  (case outerLoop vals (length srcs) (length pls) 0 [] of
                     Inl e \<Rightarrow> Inl e
                   | Inr dat \<Rightarrow> Inr \<lparr> data = dat, lpSteps = length srcs, fundingSteps = length pls,
                                       xAxisLabels = srcs, yAxisLabels = pls \<rparr>)
              | _ \<Rightarrow> generateHeatmapData \<lparr> showNegativeFunding = Some showNeg \<rparr>)
           else generateHeatmapData \<lparr> showNegativeFunding = Some showNeg \<rparr>))"

section \<open>Cell label and tooltip\<close>

text \<open>The argument the chart library hands to a formatter: \<open>None\<close> for the formatter's
  argument is \<open>null\<close> or \<open>undefined\<close>; \<open>params_value\<close> is the field \<open>value\<close>, \<open>None\<close> when it
  is missing or not an array.\<close>

record Params =
  params_value :: "jsnum list option"

text \<open>The series data \<open>data.map((item) => { return { value: item } })\<close>.\<close>

definition seriesData :: "HeatmapDataResult \<Rightarrow> Params list" where
  "seriesData r = map (\<lambda>item. \<lparr> params_value = Some item \<rparr>) (data r)"





section \<open>The dataset poller\<close>

datatype TokenType = HYPE | BTC | ETH

fun TokenType_str :: "TokenType \<Rightarrow> string" where
  "TokenType_str HYPE = ''HYPE''"
| "TokenType_str BTC = ''BTC''"
| "TokenType_str ETH = ''ETH''"

text \<open>What a request comes to: \<open>Rejected\<close> is \<open>fetch\<close> failing (a network error);
  \<open>Response ok body\<close> is a response with its \<open>ok\<close> flag, \<open>body\<close> being what \<open>res.json()\<close>
  gives, \<open>None\<close> when the body does not parse.\<close>

datatype response = Rejected | Response bool "HeatmapJsonDataset option"

datatype fetch_error = NetworkError | LoadError string | ParseError

text \<open>The \<open>try\<close> block of \<open>fetchData\<close> up to the commit: what is thrown, or the document.\<close>

definition awaitJson :: "string \<Rightarrow> response \<Rightarrow> fetch_error + HeatmapJsonDataset" where
  "awaitJson tokenPath r =
     (case r of
        Rejected \<Rightarrow> Inl NetworkError
      | Response ok body \<Rightarrow>
          (if \<not> ok then Inl (LoadError (''Failed to load '' @ tokenPath @ ''.json''))
           else (case body of None \<Rightarrow> Inl ParseError | Some json \<Rightarrow> Inr json)))"

text \<open>The variables one run of the effect declares and its closures share: the token it was
  run for, \<open>isCancelled\<close> and \<open>intervalId\<close> (\<open>None\<close> is \<open>undefined\<close>).\<close>

record EffectEnv =
  env_token :: TokenType
  isCancelled :: bool
  intervalId :: "nat option"

text \<open>A call of \<open>fetchData\<close> suspended at its \<open>await\<close>: the environment of its closure (an
  index into the store of environments), the token path and the address requested.\<close>

record Fetch =
  fetch_env :: nat
  fetch_tokenPath :: string
  fetch_url :: string

text \<open>The component: its state variables, the store of effect environments, the live run
  of the effect (\<open>None\<close> once torn down), the window's interval timers (handle and the
  environment of the callback) and the suspended calls of \<open>fetchData\<close> by request number.\<close>

record Component =
  selectedToken :: TokenType
  dataset :: "HeatmapJsonDataset option"
  lastUpdatedAt :: "nat option"
  envs :: "EffectEnv list"
  liveEffect :: "nat option"
  timers :: "(nat \<times> nat) list"
  nextHandle :: nat
  inflight :: "(nat \<times> Fetch) list"
  nextFetch :: nat

text \<open>\<open>fetchData()\<close> called in environment \<open>a\<close> at time \<open>now\<close>, up to its \<open>await\<close>.\<close>

definition startFetch :: "nat \<Rightarrow> nat \<Rightarrow> Component \<Rightarrow> Component" where
  "startFetch a now s =
     (case at (envs s) a of
        None \<Rightarrow> s
      | Some e \<Rightarrow>
          (let tokenPath = toLowerCase (TokenType_str (env_token e));
               url = ''/data/heatmap/'' @ tokenPath @ ''.json?t='' @ natToString now
           in s \<lparr> inflight := inflight s @ [(nextFetch s,
                     \<lparr> fetch_env = a, fetch_tokenPath = tokenPath, fetch_url = url \<rparr>)],
                   nextFetch := nextFetch s + 1 \<rparr>))"

text \<open>The rest of \<open>fetchData\<close>, once the request of a call in environment \<open>e\<close> has come to
  \<open>r\<close> at time \<open>now\<close>.\<close>

definition settle :: "EffectEnv \<Rightarrow> string \<Rightarrow> response \<Rightarrow> nat \<Rightarrow> Component \<Rightarrow> Component" where
  "settle e tokenPath r now s =
     (case awaitJson tokenPath r of
        Inr json \<Rightarrow>
          (if \<not> isCancelled e then s \<lparr> dataset := Some json, lastUpdatedAt := Some now \<rparr> else s)
      | Inl err \<Rightarrow>
          (if \<not> isCancelled e then s \<lparr> dataset := None \<rparr> else s))"

text \<open>The body of the effect, run for the selected token at time \<open>now\<close>: a fresh
  environment, a first call of \<open>fetchData\<close>, and the interval timer.\<close>

definition runEffect :: "nat \<Rightarrow> Component \<Rightarrow> Component" where
  "runEffect now s =
     (let a = length (envs s);
          s1 = s \<lparr> envs := envs s @ [\<lparr> env_token = selectedToken s, isCancelled = False,
                                       intervalId = None \<rparr>] \<rparr>;
          s2 = startFetch a now s1;
          h = nextHandle s2
      in s2 \<lparr> envs := (envs s2)[a := (envs s2 ! a) \<lparr> intervalId := Some h \<rparr>],
              timers := timers s2 @ [(h, a)],
              nextHandle := h + 1,
              liveEffect := Some a \<rparr>)"

text \<open>The function the effect returns, for environment \<open>a\<close>.\<close>

definition cleanup :: "nat \<Rightarrow> Component \<Rightarrow> Component" where
  "cleanup a s =
     (case at (envs s) a of
        None \<Rightarrow> s
      | Some e \<Rightarrow>
          (let s1 = s \<lparr> envs := (envs s)[a := e \<lparr> isCancelled := True \<rparr>] \<rparr>
           in (case intervalId e of
                 None \<Rightarrow> s1
               | Some h \<Rightarrow>
                   (if h \<noteq> 0 then s1 \<lparr> timers := filter (\<lambda>(h', a'). h' \<noteq> h) (timers s1) \<rparr>
                    else s1))))"

text \<open>The component as mounted at time \<open>now\<close>: the initial state, and the effect run once.
  Timer handles start at 1.\<close>

definition mount :: "nat \<Rightarrow> Component" where
  "mount now =
     runEffect now \<lparr> selectedToken = HYPE, dataset = None, lastUpdatedAt = None, envs = [],
                     liveEffect = None, timers = [], nextHandle = 1, inflight = [],
                     nextFetch = 0 \<rparr>"

text \<open>What can happen to a mounted component: a click on a token tab, an interval timer
  firing, a request coming to its end, the component being torn down. A new selection
  re-renders the component, which runs the clean-up of the live effect and then the effect
  again: the three are one step here, nothing else happening in between. A click on the
  selected token changes nothing. Each event carries the time it happens at.\<close>

datatype event =
    SetSelectedToken TokenType nat
  | IntervalFires nat nat
  | FetchSettles nat response nat
  | Unmount

fun step :: "event \<Rightarrow> Component \<Rightarrow> Component" where
  "step (SetSelectedToken t now) s =
     (case liveEffect s of
        None \<Rightarrow> s
      | Some a \<Rightarrow>
          (if t = selectedToken s then s
           else runEffect now (cleanup a (s \<lparr> selectedToken := t \<rparr>))))"
| "step (IntervalFires h now) s =
     (case map_of (timers s) h of
        None \<Rightarrow> s
      | Some a \<Rightarrow> startFetch a now s)"
| "step (FetchSettles f r now) s =
     (case map_of (inflight s) f of
        None \<Rightarrow> s
      | Some fe \<Rightarrow>
          (let s1 = s \<lparr> inflight := filter (\<lambda>(f', fe'). f' \<noteq> f) (inflight s) \<rparr>
           in (case at (envs s1) (fetch_env fe) of
                 None \<Rightarrow> s1
               | Some e \<Rightarrow> settle e (fetch_tokenPath fe) r now s1)))"
| "step Unmount s =
     (case liveEffect s of
        None \<Rightarrow> s
      | Some a \<Rightarrow> (cleanup a s) \<lparr> liveEffect := None \<rparr>)"

text \<open>A run of events, first to last.\<close>

fun run :: "event list \<Rightarrow> Component \<Rightarrow> Component" where
  "run [] s = s"
| "run (ev # evs) s = run evs (step ev s)"

text \<open>What holds of every state a mounted component reaches: request numbers and timer
  handles in use are below the next ones, the live effect has an environment that is not
  cancelled and holds the handle of its timer.\<close>

definition inv :: "Component \<Rightarrow> bool" where
  "inv s =
     (0 < nextHandle s
      \<and> (\<forall>(f, fe) \<in> set (inflight s). f < nextFetch s)
      \<and> (\<forall>e \<in> set (envs s). \<forall>h. intervalId e = Some h \<longrightarrow> h < nextHandle s)
      \<and> (\<forall>a. liveEffect s = Some a \<longrightarrow>
            a < length (envs s) \<and> \<not> isCancelled (envs s ! a)
            \<and> (\<exists>h. intervalId (envs s ! a) = Some h \<and> h \<noteq> 0)))"

text \<open>An effect run is over: its environment \<open>a\<close> is cancelled, its timer \<open>h\<close> is gone, and
  request \<open>f\<close>, if still suspended, belongs to it.\<close>

definition over :: "nat \<Rightarrow> nat \<Rightarrow> nat \<Rightarrow> Component \<Rightarrow> bool" where
  "over a h f s =
     (a < length (envs s) \<and> isCancelled (envs s ! a) \<and> intervalId (envs s ! a) = Some h
      \<and> map_of (timers s) h = None \<and> h < nextHandle s \<and> f < nextFetch s
      \<and> (case map_of (inflight s) f of None \<Rightarrow> True | Some fe \<Rightarrow> fetch_env fe = a))"

section \<open>Theorems\<close>

subsection \<open>Evaluation of strings\<close>

lemmas char_eval = digit_def char_of_def bit_Suc_0_iff

lemma natToString_values:
  "natToString 0 = ''0''"
  "natToString 8 = ''8''"
  "natToString 12 = ''12''"
  "natToString 200 = ''200''"
  "natToString 5000 = ''5000''"
  by (simp_all add: natToString.simps char_eval)

lemma toLowerCase_values:
  "toLowerCase ''HYPE'' = ''hype''"
  "toLowerCase ''BTC'' = ''btc''"
  "toLowerCase ''ETH'' = ''eth''"
  by (simp_all add: toLowerCase_def lowerChar_def char_eval)




lemmas poller_defs = mount_def runEffect_def startFetch_def cleanup_def settle_def awaitJson_def
  at_def Let_def

subsection \<open>The loops of the matrix builder\<close>

lemma innerLoop_rows:
  "j \<le> m \<Longrightarrow> m \<le> length vals \<Longrightarrow>
   innerLoop vals m i j dat = Inr (dat @ map (\<lambda>j'. [Num (int i), Num (int j'), num_at (vals ! j') i]) [j..<m])"
proof (induction vals m i j dat rule: innerLoop.induct)
  case (1 vals m i j dat)
  show ?case
  proof (cases "j < m")
    case True
    then have row: "at vals j = Some (vals ! j)"
      using "1.prems" by (simp add: at_def)
    have step: "innerLoop vals m i (j + 1) (dat @ [[Num (int i), Num (int j), num_at (vals ! j) i]])
        = Inr ((dat @ [[Num (int i), Num (int j), num_at (vals ! j) i]])
               @ map (\<lambda>j'. [Num (int i), Num (int j'), num_at (vals ! j') i]) [j + 1..<m])"
      using "1.IH" [OF True row] True "1.prems" by simp
    have "[j..<m] = j # [j + 1..<m]"
      using True by (simp add: upt_conv_Cons)
    then show ?thesis
      using True row step by (subst innerLoop.simps) simp
  next
    case False
    then have "j = m" using "1.prems" by simp
    then show ?thesis by (subst innerLoop.simps) simp
  qed
qed

lemma outerLoop_rows:
  "i \<le> n \<Longrightarrow> m \<le> length vals \<Longrightarrow>
   outerLoop vals n m i dat
     = Inr (dat @ concat (map (\<lambda>i'. map (\<lambda>j'. [Num (int i'), Num (int j'), num_at (vals ! j') i']) [0..<m]) [i..<n]))"
proof (induction vals n m i dat rule: outerLoop.induct)
  case (1 vals n m i dat)
  show ?case
  proof (cases "i < n")
    case True
    have inner: "innerLoop vals m i 0 dat
        = Inr (dat @ map (\<lambda>j'. [Num (int i), Num (int j'), num_at (vals ! j') i]) [0..<m])"
      using "1.prems" by (simp add: innerLoop_rows)
    have step: "outerLoop vals n m (i + 1) (dat @ map (\<lambda>j'. [Num (int i), Num (int j'), num_at (vals ! j') i]) [0..<m])
        = Inr ((dat @ map (\<lambda>j'. [Num (int i), Num (int j'), num_at (vals ! j') i]) [0..<m])
               @ concat (map (\<lambda>i'. map (\<lambda>j'. [Num (int i'), Num (int j'), num_at (vals ! j') i']) [0..<m]) [i + 1..<n]))"
      using "1.IH" [OF True inner] True "1.prems" by simp
    have "[i..<n] = i # [i + 1..<n]"
      using True by (simp add: upt_conv_Cons)
    then show ?thesis
      using True inner step by (subst outerLoop.simps) simp
  next
    case False
    then have "i = n" using "1.prems" by simp
    then show ?thesis by (subst outerLoop.simps) simp
  qed
qed

lemma length_grid: "length (concat (map (\<lambda>i. map (f i) [0..<m]) [0..<n])) = n * m"
  by (induction n) simp_all

lemma nth_grid:
  "i < n \<Longrightarrow> j < m \<Longrightarrow> concat (map (\<lambda>i. map (f i) [0..<m]) [0..<n]) ! (i * m + j) = f i j"
proof (induction n)
  case 0
  then show ?case by simp
next
  case (Suc n)
  show ?case
  proof (cases "i < n")
    case True
    then have "i * m + j < n * m"
    proof -
      have "i * m + j < i * m + m" using Suc.prems by simp
      also have "\<dots> = (i + 1) * m" by simp
      also have "\<dots> \<le> n * m" using True by (intro mult_le_mono1) simp
      finally show ?thesis .
    qed
    then show ?thesis
      using Suc.IH [OF True Suc.prems(2)] by (simp add: nth_append length_grid)
  next
    case False
    then have "i = n" using Suc.prems by simp
    then show ?thesis
      using Suc.prems by (simp add: nth_append length_grid)
  qed
qed

lemma generateHeatmapData_value:
  "generateHeatmapData config =
     Inr \<lparr> data = [[Num 0, Num 0, Num 12], [Num 0, Num 1, Num 5], [Num 0, Num 2, Num (- 4)],
                   [Num 1, Num 0, Num 25], [Num 1, Num 1, Num 18], [Num 1, Num 2, Num 10],
                   [Num 2, Num 0, Num (- 8)], [Num 2, Num 1, Num 3], [Num 2, Num 2, Num 37]],
            lpSteps = 3, fundingSteps = 3,
            xAxisLabels = [''HYPERCORE'', ''PYTH'', ''REDSTONE''],
            yAxisLabels = [''POOL A HyperSwap 0.05'', ''POOL B HyperSwap 0.3'', ''POOL C Project X''] \<rparr>"
  by (simp add: generateHeatmapData_def outerLoop_rows num_at_def at_def upt_rec)

subsection \<open>The matrix builder\<close>

lemma innerLoop_short:
  "j \<le> length vals \<Longrightarrow> length vals < m \<Longrightarrow> innerLoop vals m i j dat = Inl TypeError"
proof (induction vals m i j dat rule: innerLoop.induct)
  case (1 vals m i j dat)
  show ?case
  proof (cases "j < length vals")
    case True
    then have row: "at vals j = Some (vals ! j)" by (simp add: at_def)
    have jm: "j < m" using True "1.prems" by simp
    have "innerLoop vals m i (j + 1) (dat @ [[Num (int i), Num (int j), num_at (vals ! j) i]])
        = Inl TypeError"
      using "1.IH" [OF jm row] True "1.prems" by simp
    then show ?thesis
      using jm row by (subst innerLoop.simps) simp
  next
    case False
    then have "at vals j = None" by (simp add: at_def)
    moreover have "j < m" using False "1.prems" by simp
    ultimately show ?thesis by (subst innerLoop.simps) simp
  qed
qed

text \<open>Where the matrix has fewer rows than there are pools, building fails: the read of
  a row that is not there throws.\<close>

lemma heatmapData_short_matrix:
  assumes "sources d = Some srcs" and "pools d = Some pls" and "valuesBps d = Some vals"
    and "srcs \<noteq> []" and "vals \<noteq> []" and "length vals < length pls"
  shows "heatmapData (Some d) showNeg = Inl TypeError"
proof -
  have "innerLoop vals (length pls) 0 0 [] = Inl TypeError"
    using assms by (simp add: innerLoop_short)
  then have "outerLoop vals (length srcs) (length pls) 0 [] = Inl TypeError"
    using assms by (subst outerLoop.simps) simp
  moreover have "pls \<noteq> []" using assms by auto
  ultimately show ?thesis
    using assms by (simp add: heatmapData_def hasLength_def)
qed

text \<open>A dataset with one source, two pools and a matrix of one row passes the guard of the
  builder; the read of the second row throws, and no triples are returned.\<close>

theorem heatmapData_missing_row_counterexample:
  "heatmapData (Some \<lparr> token = ''HYPE'', sources = Some [''S0''], pools = Some [''P0'', ''P1''],
       valuesBps = Some [[1]], updatedAt = ''t'' \<rparr>) False = Inl TypeError"
  using heatmapData_short_matrix [of "\<lparr> token = ''HYPE'', sources = Some [''S0''],
       pools = Some [''P0'', ''P1''], valuesBps = Some [[1]], updatedAt = ''t'' \<rparr>"
       "[''S0'']" "[''P0'', ''P1'']" "[[1]]" False]
  by simp

text \<open>C1. For a dataset with N sources and M pools, both sequences non-empty, and a values
  matrix of at least M rows, the matrix builder returns exactly N * M triples, in
  source-major order: for all i < N and j < M the triple at position i * M + j is
  [i, j, valuesBps[j][i]], where \<open>valuesBps[j][i]\<close> is the number at column i of row j, and
  \<open>undefined\<close> where row j is shorter than that. The labels are the dataset's own.\<close>

theorem heatmapData_triples:
  assumes "sources d = Some srcs" and "pools d = Some pls" and "valuesBps d = Some vals"
    and "srcs \<noteq> []" and "pls \<noteq> []" and "length pls \<le> length vals"
  shows "\<exists>r. heatmapData (Some d) showNeg = Inr r
           \<and> length (data r) = length srcs * length pls
           \<and> (\<forall>i j. i < length srcs \<and> j < length pls \<longrightarrow>
                 data r ! (i * length pls + j) = [Num (int i), Num (int j), num_at (vals ! j) i])
           \<and> (\<forall>i j. i < length srcs \<and> j < length pls \<and> i < length (vals ! j) \<longrightarrow>
                 data r ! (i * length pls + j) = [Num (int i), Num (int j), Num (vals ! j ! i)])
           \<and> xAxisLabels r = srcs \<and> yAxisLabels r = pls"
proof -
  have nonempty: "vals \<noteq> []"
    using assms by auto
  have "heatmapData (Some d) showNeg
      = Inr \<lparr> data = concat (map (\<lambda>i'. map (\<lambda>j'. [Num (int i'), Num (int j'), num_at (vals ! j') i']) [0..<length pls]) [0..<length srcs]),
              lpSteps = length srcs, fundingSteps = length pls, xAxisLabels = srcs, yAxisLabels = pls \<rparr>"
    using assms nonempty by (simp add: heatmapData_def hasLength_def outerLoop_rows)
  then show ?thesis
    by (simp add: length_grid nth_grid num_at_def at_def)
qed

text \<open>The theorem at a dataset of two sources and three pools: the last triple, at position
  1 * 3 + 2, is [1, 2, 6].\<close>

theorem heatmapData_triples_witness:
  "[''S0'', ''S1''] \<noteq> [] \<and> [''P0'', ''P1'', ''P2''] \<noteq> []
   \<and> length [''P0'', ''P1'', ''P2''] \<le> length [[1, 2], [3, 4], [5, 6 :: int]]
   \<and> (\<exists>r. heatmapData (Some \<lparr> token = ''HYPE'', sources = Some [''S0'', ''S1''],
                 pools = Some [''P0'', ''P1'', ''P2''], valuesBps = Some [[1, 2], [3, 4], [5, 6]],
                 updatedAt = ''t'' \<rparr>) False = Inr r
          \<and> length (data r) = 6
          \<and> data r ! 5 = [Num 1, Num 2, Num 6])"
proof -
  let ?v = "[[1, 2], [3, 4], [5, 6 :: int]]"
  let ?d = "\<lparr> token = ''HYPE'', sources = Some [''S0'', ''S1''],
              pools = Some [''P0'', ''P1'', ''P2''], valuesBps = Some ?v,
              updatedAt = ''t'' \<rparr>"
  have "\<exists>r. heatmapData (Some ?d) False = Inr r
          \<and> length (data r) = length [''S0'', ''S1''] * length [''P0'', ''P1'', ''P2'']
          \<and> (\<forall>i j. i < length [''S0'', ''S1''] \<and> j < length [''P0'', ''P1'', ''P2''] \<longrightarrow>
                data r ! (i * length [''P0'', ''P1'', ''P2''] + j)
                  = [Num (int i), Num (int j), num_at (?v ! j) i])
          \<and> (\<forall>i j. i < length [''S0'', ''S1''] \<and> j < length [''P0'', ''P1'', ''P2'']
                   \<and> i < length (?v ! j) \<longrightarrow>
                data r ! (i * length [''P0'', ''P1'', ''P2''] + j)
                  = [Num (int i), Num (int j), Num (?v ! j ! i)])
          \<and> xAxisLabels r = [''S0'', ''S1''] \<and> yAxisLabels r = [''P0'', ''P1'', ''P2'']"
    by (rule heatmapData_triples) simp_all
  then obtain r where r: "heatmapData (Some ?d) False = Inr r"
      "length (data r) = length [''S0'', ''S1''] * length [''P0'', ''P1'', ''P2'']"
      "\<forall>i j. i < length [''S0'', ''S1''] \<and> j < length [''P0'', ''P1'', ''P2'']
                   \<and> i < length (?v ! j) \<longrightarrow>
                data r ! (i * length [''P0'', ''P1'', ''P2''] + j)
                  = [Num (int i), Num (int j), Num (?v ! j ! i)]"
    by blast
  from r(3) [rule_format, of 1 2] have "data r ! 5 = [Num 1, Num 2, Num 6]"
    by (simp add: eval_nat_numeral)
  with r(1,2) show ?thesis by simp
qed

text \<open>C2. For a null dataset, and for a dataset whose sources, pools or values sequence is
  absent or empty, the output of the matrix builder is the fixed built-in result, whatever
  \<open>showNegativeFunding\<close> is: the sources HYPERCORE, PYTH and REDSTONE, three pool labels, and
  the nine triples of the matrix [[12, 25, -8], [5, 18, 3], [-4, 10, 37]] read source-major.\<close>

theorem heatmapData_default:
  assumes "ds = None
         \<or> (\<exists>d. ds = Some d
                \<and> (sources d = None \<or> sources d = Some [] \<or> pools d = None \<or> pools d = Some []
                     \<or> valuesBps d = None \<or> valuesBps d = Some []))"
  shows "heatmapData ds showNeg =
     Inr \<lparr> data = [[Num 0, Num 0, Num 12], [Num 0, Num 1, Num 5], [Num 0, Num 2, Num (- 4)],
                   [Num 1, Num 0, Num 25], [Num 1, Num 1, Num 18], [Num 1, Num 2, Num 10],
                   [Num 2, Num 0, Num (- 8)], [Num 2, Num 1, Num 3], [Num 2, Num 2, Num 37]],
            lpSteps = 3, fundingSteps = 3,
            xAxisLabels = [''HYPERCORE'', ''PYTH'', ''REDSTONE''],
            yAxisLabels = [''POOL A HyperSwap 0.05'', ''POOL B HyperSwap 0.3'', ''POOL C Project X''] \<rparr>"
  using assms
  by (auto simp: heatmapData_def hasLength_def generateHeatmapData_value split: option.splits)

text \<open>The theorem at a dataset with an empty sequence of sources.\<close>

theorem heatmapData_default_witness:
  "heatmapData (Some \<lparr> token = ''BTC'', sources = Some [], pools = Some [''P''],
       valuesBps = Some [[1]], updatedAt = ''t'' \<rparr>) True =
     Inr \<lparr> data = [[Num 0, Num 0, Num 12], [Num 0, Num 1, Num 5], [Num 0, Num 2, Num (- 4)],
                   [Num 1, Num 0, Num 25], [Num 1, Num 1, Num 18], [Num 1, Num 2, Num 10],
                   [Num 2, Num 0, Num (- 8)], [Num 2, Num 1, Num 3], [Num 2, Num 2, Num 37]],
            lpSteps = 3, fundingSteps = 3,
            xAxisLabels = [''HYPERCORE'', ''PYTH'', ''REDSTONE''],
            yAxisLabels = [''POOL A HyperSwap 0.05'', ''POOL B HyperSwap 0.3'', ''POOL C Project X''] \<rparr>"
  using heatmapData_default [of "Some \<lparr> token = ''BTC'', sources = Some [], pools = Some [''P''],
       valuesBps = Some [[1]], updatedAt = ''t'' \<rparr>" True]
  by simp

text \<open>A dataset whose matrix has two rows for one pool, and one column for two sources, is
  not replaced by the built-in data: the builder reads it as it is.\<close>

theorem heatmapData_shape_unchecked_counterexample:
  "heatmapData (Some \<lparr> token = ''HYPE'', sources = Some [''S0'', ''S1''], pools = Some [''P''],
       valuesBps = Some [[1], [2]], updatedAt = ''t'' \<rparr>) False
     = Inr \<lparr> data = [[Num 0, Num 0, Num 1], [Num 1, Num 0, Undefined]],
             lpSteps = 2, fundingSteps = 1, xAxisLabels = [''S0'', ''S1''], yAxisLabels = [''P''] \<rparr>
   \<and> heatmapData (Some \<lparr> token = ''HYPE'', sources = Some [''S0'', ''S1''], pools = Some [''P''],
       valuesBps = Some [[1], [2]], updatedAt = ''t'' \<rparr>) False
     \<noteq> generateHeatmapData \<lparr> showNegativeFunding = Some False \<rparr>"
  by (simp add: heatmapData_def hasLength_def outerLoop_rows generateHeatmapData_value
        num_at_def at_def upt_rec)

text \<open>C9. An absent dataset, and a dataset whose sources, pools or
  values sequence is absent or empty, gives the built-in data, of shape 3 by 3. The shape of
  the values matrix is not looked at: a dataset with N > 0 sources, M > 0 pools and at least M
  rows is built from as it is, with N and M of its own, whatever the number of its rows and
  the length of each.\<close>

theorem heatmapData_fallback_guard:
  "((ds = None
      \<or> (\<exists>d. ds = Some d
             \<and> (\<not> hasLength (sources d) \<or> \<not> hasLength (pools d) \<or> \<not> hasLength (valuesBps d))))
     \<longrightarrow> heatmapData ds showNeg = generateHeatmapData \<lparr> showNegativeFunding = Some showNeg \<rparr>
         \<and> (\<exists>r. heatmapData ds showNeg = Inr r \<and> lpSteps r = 3 \<and> fundingSteps r = 3
                \<and> length (data r) = 9 \<and> length (xAxisLabels r) = 3 \<and> length (yAxisLabels r) = 3))
   \<and> (\<forall>d srcs pls vals.
         ds = Some d \<and> sources d = Some srcs \<and> pools d = Some pls \<and> valuesBps d = Some vals
           \<and> srcs \<noteq> [] \<and> pls \<noteq> [] \<and> length pls \<le> length vals
         \<longrightarrow> (\<exists>r. heatmapData ds showNeg = Inr r \<and> lpSteps r = length srcs
                  \<and> fundingSteps r = length pls \<and> length (data r) = length srcs * length pls
                  \<and> xAxisLabels r = srcs \<and> yAxisLabels r = pls))"
proof (rule conjI)
  show "(ds = None
      \<or> (\<exists>d. ds = Some d
             \<and> (\<not> hasLength (sources d) \<or> \<not> hasLength (pools d) \<or> \<not> hasLength (valuesBps d))))
     \<longrightarrow> heatmapData ds showNeg = generateHeatmapData \<lparr> showNegativeFunding = Some showNeg \<rparr>
         \<and> (\<exists>r. heatmapData ds showNeg = Inr r \<and> lpSteps r = 3 \<and> fundingSteps r = 3
                \<and> length (data r) = 9 \<and> length (xAxisLabels r) = 3 \<and> length (yAxisLabels r) = 3)"
  proof (rule impI)
    assume "ds = None
      \<or> (\<exists>d. ds = Some d
             \<and> (\<not> hasLength (sources d) \<or> \<not> hasLength (pools d) \<or> \<not> hasLength (valuesBps d)))"
    then have "heatmapData ds showNeg = generateHeatmapData \<lparr> showNegativeFunding = Some showNeg \<rparr>"
      by (auto simp: heatmapData_def)
    then show "heatmapData ds showNeg = generateHeatmapData \<lparr> showNegativeFunding = Some showNeg \<rparr>
         \<and> (\<exists>r. heatmapData ds showNeg = Inr r \<and> lpSteps r = 3 \<and> fundingSteps r = 3
                \<and> length (data r) = 9 \<and> length (xAxisLabels r) = 3 \<and> length (yAxisLabels r) = 3)"
      by (simp add: generateHeatmapData_value)
  qed
next
  show "\<forall>d srcs pls vals.
         ds = Some d \<and> sources d = Some srcs \<and> pools d = Some pls \<and> valuesBps d = Some vals
           \<and> srcs \<noteq> [] \<and> pls \<noteq> [] \<and> length pls \<le> length vals
         \<longrightarrow> (\<exists>r. heatmapData ds showNeg = Inr r \<and> lpSteps r = length srcs
                  \<and> fundingSteps r = length pls \<and> length (data r) = length srcs * length pls
                  \<and> xAxisLabels r = srcs \<and> yAxisLabels r = pls)"
  proof (intro allI impI)
    fix d srcs pls vals
    assume a: "ds = Some d \<and> sources d = Some srcs \<and> pools d = Some pls \<and> valuesBps d = Some vals
           \<and> srcs \<noteq> [] \<and> pls \<noteq> [] \<and> length pls \<le> length vals"
    then have "vals \<noteq> []" by auto
    with a show "\<exists>r. heatmapData ds showNeg = Inr r \<and> lpSteps r = length srcs
                  \<and> fundingSteps r = length pls \<and> length (data r) = length srcs * length pls
                  \<and> xAxisLabels r = srcs \<and> yAxisLabels r = pls"
      by (simp add: heatmapData_def hasLength_def outerLoop_rows length_grid)
  qed
qed

theorem heatmapData_fallback_guard_witness:
  "(\<exists>r. heatmapData (Some \<lparr> token = ''HYPE'', sources = None, pools = Some [''P''],
            valuesBps = Some [[1]], updatedAt = ''t'' \<rparr>) False = Inr r
         \<and> lpSteps r = 3 \<and> fundingSteps r = 3 \<and> length (data r) = 9)
   \<and> (\<exists>r. heatmapData (Some \<lparr> token = ''HYPE'', sources = Some [''S0'', ''S1''],
            pools = Some [''P''], valuesBps = Some [[1], [2]], updatedAt = ''t'' \<rparr>) False = Inr r
         \<and> lpSteps r = 2 \<and> fundingSteps r = 1 \<and> length (data r) = 2)"
proof -
  let ?d1 = "\<lparr> token = ''HYPE'', sources = None, pools = Some [''P''],
            valuesBps = Some [[1]], updatedAt = ''t'' \<rparr>"
  let ?d2 = "\<lparr> token = ''HYPE'', sources = Some [''S0'', ''S1''],
            pools = Some [''P''], valuesBps = Some [[1], [2]], updatedAt = ''t'' \<rparr>"
  have g1: "Some ?d1 = None
      \<or> (\<exists>d. Some ?d1 = Some d
             \<and> (\<not> hasLength (sources d) \<or> \<not> hasLength (pools d) \<or> \<not> hasLength (valuesBps d)))"
    by (simp add: hasLength_def)
  have g2: "Some ?d2 = Some ?d2 \<and> sources ?d2 = Some [''S0'', ''S1''] \<and> pools ?d2 = Some [''P'']
           \<and> valuesBps ?d2 = Some [[1], [2]]
           \<and> [''S0'', ''S1''] \<noteq> [] \<and> [''P''] \<noteq> [] \<and> length [''P''] \<le> length [[1], [2 :: int]]"
    by simp
  have p1: "\<exists>r. heatmapData (Some ?d1) False = Inr r \<and> lpSteps r = 3 \<and> fundingSteps r = 3
                \<and> length (data r) = 9 \<and> length (xAxisLabels r) = 3 \<and> length (yAxisLabels r) = 3"
    using heatmapData_fallback_guard [of "Some ?d1" False] g1 by blast
  have p2: "\<exists>r. heatmapData (Some ?d2) False = Inr r \<and> lpSteps r = length [''S0'', ''S1'']
                  \<and> fundingSteps r = length [''P'']
                  \<and> length (data r) = length [''S0'', ''S1''] * length [''P'']
                  \<and> xAxisLabels r = [''S0'', ''S1''] \<and> yAxisLabels r = [''P'']"
    using heatmapData_fallback_guard [of "Some ?d2" False] g2 by blast
  from p1 obtain r1 where r1: "heatmapData (Some ?d1) False = Inr r1"
      "lpSteps r1 = 3" "fundingSteps r1 = 3" "length (data r1) = 9"
    by blast
  from p2 obtain r2 where r2: "heatmapData (Some ?d2) False = Inr r2"
      "lpSteps r2 = length [''S0'', ''S1'']" "fundingSteps r2 = length [''P'']"
      "length (data r2) = length [''S0'', ''S1''] * length [''P'']"
    by blast
  from r2 have "lpSteps r2 = 2 \<and> fundingSteps r2 = 1 \<and> length (data r2) = 2"
    by simp
  with r1 r2(1) show ?thesis by blast
qed

subsection \<open>Cell label and tooltip\<close>




subsection \<open>Theme colours\<close>

text \<open>C8. For each value of \<open>isDark\<close> the palette \<open>getColorsByTheme\<close> returns is fully
  populated: every colour is a non-empty string, the chart colours are the entry of
  \<open>CHART_COLORS\<close> for the mode, and the heatmap gradient has nine non-empty steps. Being a
  function of \<open>isDark\<close> alone, it returns equal palettes on equal inputs. The gradient of
  the light palette differs from the gradient of the dark palette.\<close>

theorem getColorsByTheme_populated:
  "background (getColorsByTheme isDark) \<noteq> []
   \<and> backgroundOpposite (getColorsByTheme isDark) \<noteq> []
   \<and> primary (getColorsByTheme isDark) \<noteq> []
   \<and> default' (getColorsByTheme isDark) \<noteq> []
   \<and> tc_hyperEvmLp (getColorsByTheme isDark) \<noteq> []
   \<and> tc_hyperEvmBalances (getColorsByTheme isDark) \<noteq> []
   \<and> tc_hyperCorePerp (getColorsByTheme isDark) \<noteq> []
   \<and> tc_hyperCoreSpot (getColorsByTheme isDark) \<noteq> []
   \<and> text' (charts (getColorsByTheme isDark)) \<noteq> []
   \<and> axis (charts (getColorsByTheme isDark)) \<noteq> []
   \<and> line (charts (getColorsByTheme isDark)) \<noteq> []
   \<and> tooltipBackground (charts (getColorsByTheme isDark)) \<noteq> []
   \<and> length (heatmapGradient (charts (getColorsByTheme isDark))) = 9
   \<and> [] \<notin> set (heatmapGradient (charts (getColorsByTheme isDark)))
   \<and> charts (getColorsByTheme isDark) = CHART_COLORS (if isDark then Dark else Light)
   \<and> heatmapGradient (charts (getColorsByTheme False))
       \<noteq> heatmapGradient (charts (getColorsByTheme True))"
  by (cases isDark) (simp_all add: getColorsByTheme_def)

text \<open>C10. \<open>getThemeColors\<close> returns the light palette for every mode other than the string
  \<open>dark\<close>, among them no mode at all, \<open>light\<close> and \<open>system\<close>; the string \<open>dark\<close> gives the dark
  palette, which is a different one.\<close>

theorem getThemeColors_dark_only:
  "(mode \<noteq> Some ''dark'' \<longrightarrow> getThemeColors mode = lightColors)
   \<and> getThemeColors None = lightColors
   \<and> getThemeColors (Some (AppThemes_str LIGHT)) = lightColors
   \<and> getThemeColors (Some (AppThemes_str SYSTEM)) = lightColors
   \<and> getThemeColors (Some ''dark'') = darkColors
   \<and> lightColors \<noteq> darkColors"
  by (simp add: getThemeColors_def lightColors_def darkColors_def getColorsByTheme_def)

text \<open>The theorem at the mode \<open>Dark\<close>, which is not the string \<open>dark\<close>.\<close>

theorem getThemeColors_dark_only_witness:
  "Some ''Dark'' \<noteq> Some ''dark'' \<and> getThemeColors (Some ''Dark'') = lightColors"
  using getThemeColors_dark_only [of "Some ''Dark''"] by simp

subsection \<open>Facts about the poller\<close>

lemma map_of_filter_key:
  "map_of (filter (\<lambda>(k', v). k' \<noteq> k) xs) k' = (if k' = k then None else map_of xs k')"
  by (induction xs) auto

lemma startFetch_fields [simp]:
  "envs (startFetch a now s) = envs s"
  "liveEffect (startFetch a now s) = liveEffect s"
  "timers (startFetch a now s) = timers s"
  "nextHandle (startFetch a now s) = nextHandle s"
  "dataset (startFetch a now s) = dataset s"
  "lastUpdatedAt (startFetch a now s) = lastUpdatedAt s"
  "selectedToken (startFetch a now s) = selectedToken s"
  by (simp_all add: startFetch_def Let_def split: option.splits)

lemma startFetch_nextFetch: "nextFetch s \<le> nextFetch (startFetch a now s)"
  by (simp add: startFetch_def Let_def split: option.splits)

lemma startFetch_inflight_bound:
  "\<forall>(f, fe) \<in> set (inflight s). f < nextFetch s \<Longrightarrow>
   \<forall>(f, fe) \<in> set (inflight (startFetch a now s)). f < nextFetch (startFetch a now s)"
  by (auto simp: startFetch_def Let_def split: option.splits)

lemma startFetch_map_of:
  "f < nextFetch s \<Longrightarrow>
   map_of (inflight (startFetch a now s)) f = map_of (inflight s) f"
  by (auto simp: startFetch_def Let_def map_add_def split: option.splits)

lemma cleanup_fields [simp]:
  "liveEffect (cleanup a s) = liveEffect s"
  "nextHandle (cleanup a s) = nextHandle s"
  "dataset (cleanup a s) = dataset s"
  "lastUpdatedAt (cleanup a s) = lastUpdatedAt s"
  "inflight (cleanup a s) = inflight s"
  "nextFetch (cleanup a s) = nextFetch s"
  "length (envs (cleanup a s)) = length (envs s)"
  by (simp_all add: cleanup_def Let_def split: option.splits)

lemma cleanup_envs:
  "envs (cleanup a s) = (if a < length (envs s) then (envs s)[a := (envs s ! a) \<lparr> isCancelled := True \<rparr>] else envs s)"
  by (simp add: cleanup_def Let_def at_def split: option.splits)

lemma cleanup_timers_None:
  "map_of (timers s) h = None \<Longrightarrow> map_of (timers (cleanup a s)) h = None"
  by (simp add: cleanup_def Let_def map_of_filter_key split: option.splits)

lemma cleanup_timer_cleared:
  "a < length (envs s) \<Longrightarrow> intervalId (envs s ! a) = Some h \<Longrightarrow> h \<noteq> 0 \<Longrightarrow>
   map_of (timers (cleanup a s)) h = None"
  by (simp add: cleanup_def Let_def at_def map_of_filter_key)

lemma runEffect_fields [simp]:
  "liveEffect (runEffect now s) = Some (length (envs s))"
  "nextHandle (runEffect now s) = nextHandle s + 1"
  "dataset (runEffect now s) = dataset s"
  "lastUpdatedAt (runEffect now s) = lastUpdatedAt s"
  "timers (runEffect now s) = timers s @ [(nextHandle s, length (envs s))]"
  "envs (runEffect now s) = envs s @ [\<lparr> env_token = selectedToken s, isCancelled = False,
                                       intervalId = Some (nextHandle s) \<rparr>]"
  by (simp_all add: runEffect_def Let_def)

lemma runEffect_inflight:
  "inflight (runEffect now s) = inflight (startFetch (length (envs s)) now
      (s \<lparr> envs := envs s @ [\<lparr> env_token = selectedToken s, isCancelled = False, intervalId = None \<rparr>] \<rparr>))"
  "nextFetch (runEffect now s) = nextFetch (startFetch (length (envs s)) now
      (s \<lparr> envs := envs s @ [\<lparr> env_token = selectedToken s, isCancelled = False, intervalId = None \<rparr>] \<rparr>))"
  by (simp_all add: runEffect_def Let_def)

lemma settle_fields [simp]:
  "envs (settle e p r now s) = envs s"
  "liveEffect (settle e p r now s) = liveEffect s"
  "timers (settle e p r now s) = timers s"
  "nextHandle (settle e p r now s) = nextHandle s"
  "inflight (settle e p r now s) = inflight s"
  "nextFetch (settle e p r now s) = nextFetch s"
  by (simp_all add: settle_def split: sum.splits)

lemma settle_cancelled:
  "isCancelled e \<Longrightarrow> settle e p r now s = s"
  by (simp add: settle_def split: sum.splits)

lemma inv_startFetch: "inv s \<Longrightarrow> inv (startFetch a now s)"
  unfolding inv_def using startFetch_inflight_bound [of s a now] by simp

lemma inv_runEffect_cleanup:
  assumes "inv s"
  shows "inv (runEffect now (cleanup a (s \<lparr> selectedToken := t \<rparr>)))"
proof -
  let ?c = "cleanup a (s \<lparr> selectedToken := t \<rparr>)"
  let ?s1 = "?c \<lparr> envs := envs ?c @ [\<lparr> env_token = selectedToken ?c, isCancelled = False, intervalId = None \<rparr>] \<rparr>"
  have b1: "\<forall>(f, fe) \<in> set (inflight ?s1). f < nextFetch ?s1"
    using assms by (simp add: inv_def)
  have ids: "\<forall>(f, fe) \<in> set (inflight (runEffect now ?c)). f < nextFetch (runEffect now ?c)"
    using startFetch_inflight_bound [OF b1] by (simp add: runEffect_inflight)
  have envs_c: "\<forall>e \<in> set (envs ?c). \<forall>h. intervalId e = Some h \<longrightarrow> h < nextHandle s"
  proof (intro ballI allI impI)
    fix e h assume e: "e \<in> set (envs ?c)" and h: "intervalId e = Some h"
    from e obtain i where i: "i < length (envs ?c)" "e = envs ?c ! i"
      by (auto simp: in_set_conv_nth)
    then have il: "i < length (envs s)" by simp
    have "intervalId (envs ?c ! i) = intervalId (envs s ! i)"
      using il by (simp add: cleanup_envs nth_list_update)
    moreover have "envs s ! i \<in> set (envs s)" using il by simp
    ultimately show "h < nextHandle s"
      using assms h i by (auto simp: inv_def)
  qed
  show ?thesis
    unfolding inv_def
  proof (intro conjI)
    show "0 < nextHandle (runEffect now ?c)" by simp
    show "\<forall>(f, fe) \<in> set (inflight (runEffect now ?c)). f < nextFetch (runEffect now ?c)"
      by (rule ids)
    show "\<forall>e \<in> set (envs (runEffect now ?c)). \<forall>h. intervalId e = Some h \<longrightarrow> h < nextHandle (runEffect now ?c)"
      using envs_c by (auto simp: less_Suc_eq)
    show "\<forall>a. liveEffect (runEffect now ?c) = Some a \<longrightarrow>
            a < length (envs (runEffect now ?c)) \<and> \<not> isCancelled (envs (runEffect now ?c) ! a)
            \<and> (\<exists>h. intervalId (envs (runEffect now ?c) ! a) = Some h \<and> h \<noteq> 0)"
      using assms by (auto simp: inv_def nth_append)
  qed
qed

lemma inv_mount: "inv (mount now)"
  by (simp add: inv_def mount_def runEffect_inflight startFetch_def at_def Let_def)

lemma inv_unmount: "inv s \<Longrightarrow> inv ((cleanup a s) \<lparr> liveEffect := None \<rparr>)"
proof -
  assume i: "inv s"
  have "\<forall>e \<in> set (envs (cleanup a s)). \<forall>h. intervalId e = Some h \<longrightarrow> h < nextHandle s"
  proof (intro ballI allI impI)
    fix e h assume e: "e \<in> set (envs (cleanup a s))" and h: "intervalId e = Some h"
    from e obtain k where k: "k < length (envs (cleanup a s))" "e = envs (cleanup a s) ! k"
      by (auto simp: in_set_conv_nth)
    then have kl: "k < length (envs s)" by simp
    have "intervalId (envs (cleanup a s) ! k) = intervalId (envs s ! k)"
      using kl by (simp add: cleanup_envs nth_list_update)
    moreover have "envs s ! k \<in> set (envs s)" using kl by simp
    ultimately show "h < nextHandle s"
      using i h k by (auto simp: inv_def)
  qed
  then show ?thesis using i by (simp add: inv_def)
qed

lemma inv_step: "inv s \<Longrightarrow> inv (step ev s)"
proof (cases ev)
  case (SetSelectedToken t now)
  assume "inv s"
  then show ?thesis
    using SetSelectedToken by (simp add: inv_runEffect_cleanup split: option.splits)
next
  case (IntervalFires h now)
  assume "inv s"
  then show ?thesis
    using IntervalFires by (simp add: inv_startFetch split: option.splits)
next
  case (FetchSettles f r now)
  assume i: "inv s"
  have "inv (s \<lparr> inflight := filter (\<lambda>(f', fe'). f' \<noteq> f) (inflight s) \<rparr>)"
    using i by (auto simp: inv_def)
  then have "\<And>e p. inv (settle e p r now (s \<lparr> inflight := filter (\<lambda>(f', fe'). f' \<noteq> f) (inflight s) \<rparr>))"
    by (simp add: inv_def)
  then show ?thesis
    using FetchSettles i \<open>inv (s \<lparr> inflight := filter (\<lambda>(f', fe'). f' \<noteq> f) (inflight s) \<rparr>)\<close>
    by (simp add: Let_def split: option.splits)
next
  case Unmount
  assume "inv s"
  then show ?thesis
    using Unmount by (simp add: inv_unmount split: option.splits)
qed

lemma inv_run: "inv s \<Longrightarrow> inv (run evs s)"
  by (induction evs arbitrary: s) (simp_all add: inv_step)


lemma over_startFetch: "over a h f s \<Longrightarrow> over a h f (startFetch a' now s)"
  using startFetch_nextFetch [of s a' now]
  by (simp add: over_def startFetch_map_of)

lemma over_cleanup: "over a h f s \<Longrightarrow> over a h f (cleanup a' s)"
  by (simp add: over_def cleanup_envs cleanup_timers_None nth_list_update)

lemma over_runEffect: "over a h f s \<Longrightarrow> over a h f (runEffect now s)"
proof -
  assume o: "over a h f s"
  let ?s1 = "s \<lparr> envs := envs s @ [\<lparr> env_token = selectedToken s, isCancelled = False, intervalId = None \<rparr>] \<rparr>"
  have f1: "f < nextFetch ?s1" using o by (simp add: over_def)
  have m: "map_of (inflight (runEffect now s)) f = map_of (inflight s) f"
    using startFetch_map_of [OF f1] by (simp add: runEffect_inflight)
  have n: "f < nextFetch (runEffect now s)"
    using startFetch_nextFetch [of ?s1 "length (envs s)" now] f1 by (simp add: runEffect_inflight)
  have t: "map_of (timers (runEffect now s)) h = None"
    using o by (auto simp: over_def map_add_def split: option.splits)
  show ?thesis
    using o m n t by (simp add: over_def nth_append)
qed

lemma over_step: "over a h f s \<Longrightarrow> over a h f (step ev s)"
proof (cases ev)
  case (SetSelectedToken t now)
  assume o: "over a h f s"
  have "over a h f (s \<lparr> selectedToken := t \<rparr>)" using o by (simp add: over_def)
  then have "\<And>a'. over a h f (runEffect now (cleanup a' (s \<lparr> selectedToken := t \<rparr>)))"
    by (simp add: over_cleanup over_runEffect)
  then show ?thesis
    using SetSelectedToken o by (simp split: option.splits)
next
  case (IntervalFires h' now)
  assume "over a h f s"
  then show ?thesis
    using IntervalFires by (simp add: over_startFetch split: option.splits)
next
  case (FetchSettles f' r now)
  assume o: "over a h f s"
  have "over a h f (s \<lparr> inflight := filter (\<lambda>(f'', fe'). f'' \<noteq> f') (inflight s) \<rparr>)"
    using o by (simp add: over_def map_of_filter_key)
  then have "\<And>e p. over a h f (settle e p r now (s \<lparr> inflight := filter (\<lambda>(f'', fe'). f'' \<noteq> f') (inflight s) \<rparr>))"
    by (simp add: over_def)
  then show ?thesis
    using FetchSettles o \<open>over a h f (s \<lparr> inflight := filter (\<lambda>(f'', fe'). f'' \<noteq> f') (inflight s) \<rparr>)\<close>
    by (simp add: Let_def split: option.splits)
next
  case Unmount
  assume o: "over a h f s"
  then have "\<And>a'. over a h f (cleanup a' s)" by (simp add: over_cleanup)
  then have "\<And>a'. over a h f ((cleanup a' s) \<lparr> liveEffect := None \<rparr>)" by (simp add: over_def)
  then show ?thesis
    using Unmount o by (simp split: option.splits)
qed

lemma over_run: "over a h f s \<Longrightarrow> over a h f (run evs s)"
  by (induction evs arbitrary: s) (simp_all add: over_step)

lemma over_settle_dropped:
  assumes "over a h f s"
  shows "dataset (step (FetchSettles f r now) s) = dataset s"
    and "lastUpdatedAt (step (FetchSettles f r now) s) = lastUpdatedAt s"
  using assms
  by (auto simp: over_def at_def Let_def settle_cancelled split: option.splits)

lemma inv_in_flight:
  "inv s \<Longrightarrow> map_of (inflight s) f = Some fe \<Longrightarrow> f < nextFetch s"
  by (auto simp: inv_def dest!: map_of_SomeD)

lemma over_after_cleanup:
  assumes "inv s" and "liveEffect s = Some a" and "map_of (inflight s) f = Some fe"
    and "fetch_env fe = a"
  shows "\<exists>h. intervalId (envs s ! a) = Some h \<and> over a h f (cleanup a s)"
proof -
  from assms(1,2) obtain h where h: "intervalId (envs s ! a) = Some h" "h \<noteq> 0"
    and a: "a < length (envs s)"
    by (auto simp: inv_def)
  have "envs s ! a \<in> set (envs s)" using a by simp
  then have hb: "h < nextHandle s" using assms(1) h by (auto simp: inv_def)
  have fb: "f < nextFetch s" using assms(1,3) by (rule inv_in_flight)
  have "over a h f (cleanup a s)"
    using a h hb fb assms(3,4)
    by (simp add: over_def cleanup_envs cleanup_timer_cleared)
  then show ?thesis using h by blast
qed

subsection \<open>The poller\<close>

text \<open>C3. When a request of a call of \<open>fetchData\<close> fails (the fetch is rejected, the response
  is not \<open>ok\<close>, or its body does not parse) and the effect run that made the call is not
  cancelled, the held dataset becomes \<open>null\<close>, so the matrix built next is the built-in one,
  with the sources HYPERCORE, PYTH and REDSTONE, whatever was held before.\<close>

theorem failed_fetch_shows_default:
  assumes "map_of (inflight s) f = Some fe" and "at (envs s) (fetch_env fe) = Some e"
    and "\<not> isCancelled e"
    and "r = Rejected \<or> r = Response False body \<or> r = Response True None"
  shows "dataset (step (FetchSettles f r now) s) = None
       \<and> heatmapData (dataset (step (FetchSettles f r now) s)) showNeg
           = generateHeatmapData \<lparr> showNegativeFunding = Some showNeg \<rparr>
       \<and> (\<exists>m. heatmapData (dataset (step (FetchSettles f r now) s)) showNeg = Inr m
              \<and> xAxisLabels m = [''HYPERCORE'', ''PYTH'', ''REDSTONE'']
              \<and> lpSteps m = 3 \<and> fundingSteps m = 3 \<and> length (data m) = 9)"
proof -
  have "dataset (step (FetchSettles f r now) s) = None"
    using assms by (auto simp: Let_def settle_def awaitJson_def)
  then show ?thesis
    by (simp add: heatmapData_def generateHeatmapData_value)
qed

text \<open>The theorem after a dataset for HYPE was committed and BTC was selected: the request
  for \<open>/data/heatmap/btc.json\<close> gets a response that is not \<open>ok\<close>.\<close>

theorem failed_fetch_shows_default_witness:
  "map_of (inflight (run [FetchSettles 0 (Response True (Some \<lparr> token = ''HYPE'',
        sources = Some [''S''], pools = Some [''P''], valuesBps = Some [[7]], updatedAt = ''t'' \<rparr>)) 100,
      SetSelectedToken BTC 200] (mount 0))) 1
     = Some \<lparr> fetch_env = 1, fetch_tokenPath = ''btc'', fetch_url = ''/data/heatmap/btc.json?t=200'' \<rparr>
   \<and> dataset (run [FetchSettles 0 (Response True (Some \<lparr> token = ''HYPE'',
        sources = Some [''S''], pools = Some [''P''], valuesBps = Some [[7]], updatedAt = ''t'' \<rparr>)) 100,
      SetSelectedToken BTC 200] (mount 0))
     = Some \<lparr> token = ''HYPE'', sources = Some [''S''], pools = Some [''P''],
              valuesBps = Some [[7]], updatedAt = ''t'' \<rparr>
   \<and> dataset (step (FetchSettles 1 (Response False None) 300)
        (run [FetchSettles 0 (Response True (Some \<lparr> token = ''HYPE'',
          sources = Some [''S''], pools = Some [''P''], valuesBps = Some [[7]], updatedAt = ''t'' \<rparr>)) 100,
        SetSelectedToken BTC 200] (mount 0))) = None
   \<and> (\<exists>m. heatmapData (dataset (step (FetchSettles 1 (Response False None) 300)
        (run [FetchSettles 0 (Response True (Some \<lparr> token = ''HYPE'',
          sources = Some [''S''], pools = Some [''P''], valuesBps = Some [[7]], updatedAt = ''t'' \<rparr>)) 100,
        SetSelectedToken BTC 200] (mount 0)))) False = Inr m
        \<and> xAxisLabels m = [''HYPERCORE'', ''PYTH'', ''REDSTONE''])"
proof -
  let ?s = "run [FetchSettles 0 (Response True (Some \<lparr> token = ''HYPE'',
        sources = Some [''S''], pools = Some [''P''], valuesBps = Some [[7]], updatedAt = ''t'' \<rparr>)) 100,
      SetSelectedToken BTC 200] (mount 0)"
  let ?fe = "\<lparr> fetch_env = 1, fetch_tokenPath = ''btc'', fetch_url = ''/data/heatmap/btc.json?t=200'' \<rparr>"
  let ?e = "\<lparr> env_token = BTC, isCancelled = False, intervalId = Some 2 \<rparr>"
  have h1: "map_of (inflight ?s) 1 = Some ?fe"
    by (simp add: poller_defs toLowerCase_values natToString_values)
  have h2: "at (envs ?s) (fetch_env ?fe) = Some ?e"
    by (simp add: poller_defs)
  have h3: "\<not> isCancelled ?e" by simp
  have h4: "Response False None = Rejected \<or> Response False None = Response False None
            \<or> Response False None = Response True None" by simp
  have d: "dataset ?s = Some \<lparr> token = ''HYPE'', sources = Some [''S''], pools = Some [''P''],
              valuesBps = Some [[7]], updatedAt = ''t'' \<rparr>"
    by (simp add: poller_defs)
  from failed_fetch_shows_default [OF h1 h2 h3 h4, of 300 False] h1 d
  show ?thesis by blast
qed

text \<open>A dataset is held, the timer fires, and the request of that poll is rejected: the
  dataset held afterwards is \<open>null\<close>, not the one held before.\<close>

theorem failed_poll_clears_counterexample:
  "dataset (run [FetchSettles 0 (Response True (Some \<lparr> token = ''HYPE'', sources = Some [''S''],
                    pools = Some [''P''], valuesBps = Some [[7]], updatedAt = ''t'' \<rparr>)) 100,
                 IntervalFires 1 5000] (mount 0))
     = Some \<lparr> token = ''HYPE'', sources = Some [''S''], pools = Some [''P''],
              valuesBps = Some [[7]], updatedAt = ''t'' \<rparr>
   \<and> dataset (run [FetchSettles 0 (Response True (Some \<lparr> token = ''HYPE'', sources = Some [''S''],
                    pools = Some [''P''], valuesBps = Some [[7]], updatedAt = ''t'' \<rparr>)) 100,
                 IntervalFires 1 5000,
                 FetchSettles 1 Rejected 5050] (mount 0))
     = None"
  by (simp add: poller_defs)

text \<open>C4. When the request of a poll fails, the dataset held afterwards is \<open>null\<close> if the
  effect run that made the call is not cancelled, and the dataset held before if it is
  cancelled; the time of the last update is left as it was.\<close>

theorem failed_fetch_dataset:
  assumes "map_of (inflight s) f = Some fe" and "at (envs s) (fetch_env fe) = Some e"
    and "r = Rejected \<or> r = Response False body \<or> r = Response True None"
  shows "dataset (step (FetchSettles f r now) s) = (if isCancelled e then dataset s else None)
       \<and> lastUpdatedAt (step (FetchSettles f r now) s) = lastUpdatedAt s"
  using assms by (auto simp: Let_def settle_def awaitJson_def)

text \<open>The theorem at a poll whose body does not parse, with a dataset held.\<close>

theorem failed_fetch_dataset_witness:
  "map_of (inflight (run [FetchSettles 0 (Response True (Some \<lparr> token = ''HYPE'',
        sources = Some [''S''], pools = Some [''P''], valuesBps = Some [[7]], updatedAt = ''t'' \<rparr>)) 100,
      IntervalFires 1 5000] (mount 0))) 1
     = Some \<lparr> fetch_env = 0, fetch_tokenPath = ''hype'', fetch_url = ''/data/heatmap/hype.json?t=5000'' \<rparr>
   \<and> dataset (step (FetchSettles 1 (Response True None) 5050)
        (run [FetchSettles 0 (Response True (Some \<lparr> token = ''HYPE'',
          sources = Some [''S''], pools = Some [''P''], valuesBps = Some [[7]], updatedAt = ''t'' \<rparr>)) 100,
        IntervalFires 1 5000] (mount 0))) = None
   \<and> lastUpdatedAt (step (FetchSettles 1 (Response True None) 5050)
        (run [FetchSettles 0 (Response True (Some \<lparr> token = ''HYPE'',
          sources = Some [''S''], pools = Some [''P''], valuesBps = Some [[7]], updatedAt = ''t'' \<rparr>)) 100,
        IntervalFires 1 5000] (mount 0))) = Some 100"
proof -
  let ?s = "run [FetchSettles 0 (Response True (Some \<lparr> token = ''HYPE'',
        sources = Some [''S''], pools = Some [''P''], valuesBps = Some [[7]], updatedAt = ''t'' \<rparr>)) 100,
      IntervalFires 1 5000] (mount 0)"
  let ?fe = "\<lparr> fetch_env = 0, fetch_tokenPath = ''hype'', fetch_url = ''/data/heatmap/hype.json?t=5000'' \<rparr>"
  let ?e = "\<lparr> env_token = HYPE, isCancelled = False, intervalId = Some 1 \<rparr>"
  have h1: "map_of (inflight ?s) 1 = Some ?fe"
    by (simp add: poller_defs toLowerCase_values natToString_values)
  have h2: "at (envs ?s) (fetch_env ?fe) = Some ?e"
    by (simp add: poller_defs)
  have h3: "Response True None = Rejected \<or> Response True None = Response False None
            \<or> Response True None = Response True None" by simp
  have l: "lastUpdatedAt ?s = Some 100"
    by (simp add: poller_defs)
  from failed_fetch_dataset [OF h1 h2 h3, of 5050] h1 l
  show ?thesis by simp
qed

text \<open>Two requests of the same effect run are in flight; the newer one commits first, and
  the older one, arriving later, replaces the newer dataset.\<close>

theorem stale_same_token_counterexample:
  "dataset (run [IntervalFires 1 5000,
                 FetchSettles 1 (Response True (Some \<lparr> token = ''HYPE'', sources = Some [''S''],
                    pools = Some [''P''], valuesBps = Some [[2]], updatedAt = ''new'' \<rparr>)) 5100]
            (mount 0))
     = Some \<lparr> token = ''HYPE'', sources = Some [''S''], pools = Some [''P''],
              valuesBps = Some [[2]], updatedAt = ''new'' \<rparr>
   \<and> dataset (run [IntervalFires 1 5000,
                 FetchSettles 1 (Response True (Some \<lparr> token = ''HYPE'', sources = Some [''S''],
                    pools = Some [''P''], valuesBps = Some [[2]], updatedAt = ''new'' \<rparr>)) 5100,
                 FetchSettles 0 (Response True (Some \<lparr> token = ''HYPE'', sources = Some [''S''],
                    pools = Some [''P''], valuesBps = Some [[1]], updatedAt = ''old'' \<rparr>)) 5200]
            (mount 0))
     = Some \<lparr> token = ''HYPE'', sources = Some [''S''], pools = Some [''P''],
              valuesBps = Some [[1]], updatedAt = ''old'' \<rparr>"
  by (simp add: poller_defs)

text \<open>C5. For the selected token, every call of \<open>fetchData\<close> made by the live effect run
  commits its document when its request succeeds, whichever calls were made before or after
  it and whichever have committed already: the dataset held is that of the request that
  came back last.\<close>

theorem live_fetch_commits:
  assumes "s = run evs (mount t0)"
    and "liveEffect s = Some a"
    and "map_of (inflight s) f = Some fe" and "fetch_env fe = a"
  shows "dataset (step (FetchSettles f (Response True (Some json)) now) s) = Some json
       \<and> lastUpdatedAt (step (FetchSettles f (Response True (Some json)) now) s) = Some now"
proof -
  have i: "inv s" using assms(1) by (simp add: inv_mount inv_run)
  then have "a < length (envs s)" "\<not> isCancelled (envs s ! a)"
    using assms(2) by (auto simp: inv_def)
  then show ?thesis
    using assms(3,4) by (simp add: Let_def at_def settle_def awaitJson_def)
qed

text \<open>The theorem at the older of two requests in flight for HYPE.\<close>

theorem live_fetch_commits_witness:
  "liveEffect (run [IntervalFires 1 5000, SetSelectedToken HYPE 5001] (mount 0)) = Some 0
   \<and> map_of (inflight (run [IntervalFires 1 5000, SetSelectedToken HYPE 5001] (mount 0))) 0
       = Some \<lparr> fetch_env = 0, fetch_tokenPath = ''hype'', fetch_url = ''/data/heatmap/hype.json?t=0'' \<rparr>
   \<and> map_of (inflight (run [IntervalFires 1 5000, SetSelectedToken HYPE 5001] (mount 0))) 1
       = Some \<lparr> fetch_env = 0, fetch_tokenPath = ''hype'', fetch_url = ''/data/heatmap/hype.json?t=5000'' \<rparr>
   \<and> dataset (step (FetchSettles 0 (Response True (Some \<lparr> token = ''HYPE'', sources = Some [''S''],
                    pools = Some [''P''], valuesBps = Some [[1]], updatedAt = ''old'' \<rparr>)) 5200)
         (run [IntervalFires 1 5000, SetSelectedToken HYPE 5001] (mount 0)))
       = Some \<lparr> token = ''HYPE'', sources = Some [''S''], pools = Some [''P''],
                valuesBps = Some [[1]], updatedAt = ''old'' \<rparr>"
proof -
  let ?evs = "[IntervalFires 1 5000, SetSelectedToken HYPE 5001]"
  let ?s = "run ?evs (mount 0)"
  let ?fe = "\<lparr> fetch_env = 0, fetch_tokenPath = ''hype'', fetch_url = ''/data/heatmap/hype.json?t=0'' \<rparr>"
  have h1: "?s = run ?evs (mount 0)" by (rule refl)
  have h2: "liveEffect ?s = Some 0"
    by (simp add: poller_defs)
  have h3: "map_of (inflight ?s) 0 = Some ?fe"
    by (simp add: poller_defs toLowerCase_values natToString_values)
  have h4: "fetch_env ?fe = 0" by simp
  have h5: "map_of (inflight ?s) 1
       = Some \<lparr> fetch_env = 0, fetch_tokenPath = ''hype'', fetch_url = ''/data/heatmap/hype.json?t=5000'' \<rparr>"
    by (simp add: poller_defs toLowerCase_values natToString_values)
  from live_fetch_commits [OF h1 h2 h3 h4] h2 h3 h5
  show ?thesis by simp
qed

text \<open>C6. Let a call of \<open>fetchData\<close> made by the live effect run be in flight when another
  token is selected or the component is torn down. Then whatever happens next, the end of
  that request, whenever it comes and whatever it brings, leaves the dataset and the time of
  the last update as they are: the flag \<open>isCancelled\<close> of its run is set and stays set, and
  the timer of that run is cleared and stays cleared.\<close>

theorem cancelled_fetch_never_commits:
  assumes "s = run evs0 (mount t0)"
    and "liveEffect s = Some a"
    and "map_of (inflight s) f = Some fe" and "fetch_env fe = a"
    and "(ev = SetSelectedToken tok t1 \<and> tok \<noteq> selectedToken s) \<or> ev = Unmount"
    and "s' = run evs (step ev s)"
  shows "dataset (step (FetchSettles f r t2) s') = dataset s'
       \<and> lastUpdatedAt (step (FetchSettles f r t2) s') = lastUpdatedAt s'
       \<and> isCancelled (envs s' ! a)
       \<and> (\<exists>h. intervalId (envs s ! a) = Some h \<and> map_of (timers s') h = None)"
proof -
  have i: "inv s" using assms(1) by (simp add: inv_mount inv_run)
  have i2: "inv (s \<lparr> selectedToken := tok \<rparr>)" using i by (simp add: inv_def)
  from over_after_cleanup [OF i assms(2,3,4)]
  obtain h where h: "intervalId (envs s ! a) = Some h" and oc: "over a h f (cleanup a s)"
    by blast
  from over_after_cleanup [OF i2, of a f fe] assms(2,3,4) h
  have oc2: "over a h f (cleanup a (s \<lparr> selectedToken := tok \<rparr>))"
    by auto
  have "over a h f (step ev s)"
  proof (cases "ev = Unmount")
    case True
    then show ?thesis using oc assms(2) by (simp add: over_def)
  next
    case False
    then have "ev = SetSelectedToken tok t1" "tok \<noteq> selectedToken s" using assms(5) by auto
    then show ?thesis using oc2 assms(2) by (simp add: over_runEffect)
  qed
  then have o: "over a h f s'" using assms(6) by (simp add: over_run)
  show ?thesis
    using over_settle_dropped [OF o] o h by (auto simp: over_def)
qed

text \<open>The theorem at a request for HYPE still in flight when BTC is selected: a dataset for
  BTC is committed, and the late document for HYPE does not replace it.\<close>

theorem cancelled_fetch_never_commits_witness:
  "liveEffect (mount 0) = Some 0
   \<and> map_of (inflight (mount 0)) 0
       = Some \<lparr> fetch_env = 0, fetch_tokenPath = ''hype'', fetch_url = ''/data/heatmap/hype.json?t=0'' \<rparr>
   \<and> BTC \<noteq> selectedToken (mount 0)
   \<and> dataset (run [IntervalFires 2 5000,
                   FetchSettles 1 (Response True (Some \<lparr> token = ''BTC'', sources = Some [''S''],
                     pools = Some [''P''], valuesBps = Some [[2]], updatedAt = ''b'' \<rparr>)) 5100]
               (step (SetSelectedToken BTC 200) (mount 0)))
       = Some \<lparr> token = ''BTC'', sources = Some [''S''], pools = Some [''P''],
                valuesBps = Some [[2]], updatedAt = ''b'' \<rparr>
   \<and> dataset (step (FetchSettles 0 (Response True (Some \<lparr> token = ''HYPE'', sources = Some [''S''],
                     pools = Some [''P''], valuesBps = Some [[1]], updatedAt = ''h'' \<rparr>)) 5200)
         (run [IntervalFires 2 5000,
               FetchSettles 1 (Response True (Some \<lparr> token = ''BTC'', sources = Some [''S''],
                 pools = Some [''P''], valuesBps = Some [[2]], updatedAt = ''b'' \<rparr>)) 5100]
           (step (SetSelectedToken BTC 200) (mount 0))))
       = Some \<lparr> token = ''BTC'', sources = Some [''S''], pools = Some [''P''],
                valuesBps = Some [[2]], updatedAt = ''b'' \<rparr>"
proof -
  let ?evs = "[IntervalFires 2 5000,
               FetchSettles 1 (Response True (Some \<lparr> token = ''BTC'', sources = Some [''S''],
                 pools = Some [''P''], valuesBps = Some [[2]], updatedAt = ''b'' \<rparr>)) 5100]"
  let ?s' = "run ?evs (step (SetSelectedToken BTC 200) (mount 0))"
  let ?fe = "\<lparr> fetch_env = 0, fetch_tokenPath = ''hype'', fetch_url = ''/data/heatmap/hype.json?t=0'' \<rparr>"
  have h1: "mount 0 = run [] (mount 0)" by simp
  have h2: "liveEffect (mount 0) = Some 0"
    by (simp add: poller_defs)
  have h3: "map_of (inflight (mount 0)) 0 = Some ?fe"
    by (simp add: poller_defs toLowerCase_values natToString_values)
  have h4: "fetch_env ?fe = 0" by simp
  have sel: "BTC \<noteq> selectedToken (mount 0)"
    by (simp add: poller_defs)
  then have h5: "(SetSelectedToken BTC 200 = SetSelectedToken BTC 200 \<and> BTC \<noteq> selectedToken (mount 0))
      \<or> SetSelectedToken BTC 200 = Unmount" by simp
  have h6: "?s' = run ?evs (step (SetSelectedToken BTC 200) (mount 0))" by (rule refl)
  have d: "dataset ?s' = Some \<lparr> token = ''BTC'', sources = Some [''S''], pools = Some [''P''],
                valuesBps = Some [[2]], updatedAt = ''b'' \<rparr>"
    by (simp add: poller_defs)
  from cancelled_fetch_never_commits [OF h1 h2 h3 h4 h5 h6] h2 h3 sel d
  show ?thesis by simp
qed

end
